theory Spec2Isabelle
  imports Complex_Main
begin

section \<open>Integer arithmetic and flat indexing\<close>

text \<open>
  The convolution routines work on \<^verbatim>\<open>int\<close> dimensions and on flat row-major
  \<^verbatim>\<open>float*\<close> buffers. C integers are modelled by \<^typ>\<open>int\<close>: the index
  expressions stay far below the 32-bit range for every buffer that fits in
  memory, so no wrap-around is written out. C's \<^verbatim>\<open>/\<close> truncates towards zero and
  \<^verbatim>\<open>%\<close> takes the sign of the dividend, unlike \<open>div\<close> and \<open>mod\<close> on \<^typ>\<open>int\<close>;
  the difference shows for negative kernel dimensions, which the routines accept.
\<close>

definition c_div :: "int \<Rightarrow> int \<Rightarrow> int" where
  "c_div a b = sgn a * sgn b * (\<bar>a\<bar> div \<bar>b\<bar>)"

definition c_mod :: "int \<Rightarrow> int \<Rightarrow> int" where
  "c_mod a b = a - b * c_div a b"

text \<open>The macro \<^verbatim>\<open>#define IDX(row, col, stride) ((row) * (stride) + (col))\<close>.\<close>

definition IDX :: "int \<Rightarrow> int \<Rightarrow> int \<Rightarrow> int" where
  "IDX row col stride = row * stride + col"

section \<open>Buffers\<close>

text \<open>
  A \<^verbatim>\<open>float*\<close> carries no length: the routines see memory through the pointer,
  so a buffer argument is a function from the index to the value found there.
  The sample type \<^verbatim>\<open>float\<close> is a type parameter with \<open>0\<close>, \<open>+\<close> and \<open>*\<close>; no law
  of arithmetic is assumed for it unless a theorem lists the law.

  \<open>buffer xs beyond\<close> is the view of an allocation holding the samples \<open>xs\<close>: an
  index inside it yields the sample, an index outside it yields whatever
  \<open>beyond\<close> holds there. Such a load is undefined behaviour in C; the machine
  returns the neighbouring memory, about which nothing is assumed.

  The feature map, the kernel and the output are separate allocations (main
  obtains each from \<^verbatim>\<open>posix_memalign\<close>), so a store to the output does not change
  what a later load from the feature map or the kernel returns.
\<close>

definition buffer :: "'a list \<Rightarrow> (int \<Rightarrow> 'a) \<Rightarrow> int \<Rightarrow> 'a" where
  "buffer xs beyond idx =
     (if 0 \<le> idx \<and> idx < int (length xs) then xs ! nat idx else beyond idx)"

text \<open>Memory that holds \<open>0\<close> everywhere, used for concrete inputs.\<close>

definition blank :: "int \<Rightarrow> 'a::zero" where
  "blank idx = 0"

text \<open>
  The zero-padded copy of an \<open>H \<times> W\<close> feature map that the padded variant
  (conv2d.c) expects: a buffer of \<open>(H + 2 * h_padding)\<close> rows of
  \<open>(W + 2 * w_padding)\<close> samples, zero-filled (main, lines 503-505), with the
  sample of row \<open>r\<close>, column \<open>c\<close> stored at row \<open>r + h_padding\<close>, column
  \<open>c + w_padding\<close> (the layout \<^verbatim>\<open>extract_data\<close> writes, lines 96-120).
\<close>

definition zero_padded ::
  "(int \<Rightarrow> 'a::zero) \<Rightarrow> int \<Rightarrow> int \<Rightarrow> int \<Rightarrow> int \<Rightarrow> int \<Rightarrow> 'a" where
  "zero_padded f H W h_padding w_padding idx =
     (let total_width = W + w_padding * 2;
          r = idx div total_width - h_padding;
          c = idx mod total_width - w_padding
      in if 0 \<le> idx \<and> idx < (H + h_padding * 2) * total_width
            \<and> 0 \<le> r \<and> r < H \<and> 0 \<le> c \<and> c < W
         then f (IDX r c W) else 0)"

text \<open>
  \<^verbatim>\<open>typedef struct { float* arr; char* padding; } float_array;\<close>
  The padding pointer is \<^verbatim>\<open>NULL\<close> or a block of bytes that is never read.
\<close>

record 'a float_array =
  arr :: "int \<Rightarrow> 'a"
  padding :: "string option"

section \<open>Kernel window geometry\<close>

text \<open>
  Every routine starts with
  \<^verbatim>\<open>const int M = (kH / 2); const int M_offset = kH % 2 == 0 ? 1 : 0;\<close>
  (and \<open>N\<close>, \<open>N_offset\<close> from \<open>kW\<close> in the same way) and walks the taps with
  \<^verbatim>\<open>for (int i = -M; i <= M - M_offset; i++)\<close>.
\<close>

definition window_half :: "int \<Rightarrow> int" where
  "window_half kH = c_div kH 2"

definition window_offset :: "int \<Rightarrow> int" where
  "window_offset kH = (if c_mod kH 2 = 0 then 1 else 0)"

definition tap_range :: "int \<Rightarrow> int list" where
  "tap_range kH = [- window_half kH .. window_half kH - window_offset kH]"

section \<open>The bounds-checking variant (unnamed source file)\<close>

text \<open>
  The value a tap contributes, lines 147-154 of \<^verbatim>\<open>conv2d\<close> and 197-204 of
  \<^verbatim>\<open>parallel_conv2d\<close>: \<open>col = n + i\<close> is the feature row and \<open>row = k + j\<close> the
  feature column. The guard is the source's, which tests \<open>col \<ge> 0\<close> twice.
\<close>

definition f_val :: "(int \<Rightarrow> 'a::zero) \<Rightarrow> int \<Rightarrow> int \<Rightarrow> int \<Rightarrow> int \<Rightarrow> 'a" where
  "f_val f H W col row =
     (if col \<ge> 0 \<and> col < H \<and> col \<ge> 0 \<and> row < W then f (IDX col row W) else 0)"

text \<open>The accumulator \<^verbatim>\<open>result\<close> of \<^verbatim>\<open>conv2d\<close> after the two tap loops, \<open>i\<close> outside.\<close>

definition conv2d_result ::
  "(int \<Rightarrow> 'a::{zero,plus,times}) \<Rightarrow> int \<Rightarrow> int \<Rightarrow> (int \<Rightarrow> 'a) \<Rightarrow> int \<Rightarrow> int
     \<Rightarrow> int \<Rightarrow> int \<Rightarrow> 'a" where
  "conv2d_result f H W g kH kW n k =
     fold (\<lambda>i. fold (\<lambda>j result.
                  result + f_val f H W (n + i) (k + j)
                           * g (IDX (i + window_half kH) (j + window_half kW) kW))
                (tap_range kW))
       (tap_range kH) 0"

text \<open>
  \<^verbatim>\<open>int conv2d(float* f, int H, int W, float* g, int kH, int kW, float* output)\<close>:
  the returned status and the output memory after the call.
\<close>

definition conv2d ::
  "(int \<Rightarrow> 'a::{zero,plus,times}) \<Rightarrow> int \<Rightarrow> int \<Rightarrow> (int \<Rightarrow> 'a) \<Rightarrow> int \<Rightarrow> int
     \<Rightarrow> (int \<Rightarrow> 'a) \<Rightarrow> int \<times> (int \<Rightarrow> 'a)" where
  "conv2d f H W g kH kW output =
     (0, fold (\<lambda>n. fold (\<lambda>k out. out(IDX n k W := conv2d_result f H W g kH kW n k))
                  [0 .. W - 1])
           [0 .. H - 1] output)"

text \<open>
  The accumulator of \<^verbatim>\<open>parallel_conv2d\<close>, whose tap loops run \<open>j\<close> outside and \<open>i\<close>
  inside. The OpenMP reduction may add the taps in another order; the model
  takes the order the loops are written in.
\<close>

definition parallel_conv2d_result ::
  "(int \<Rightarrow> 'a::{zero,plus,times}) \<Rightarrow> int \<Rightarrow> int \<Rightarrow> (int \<Rightarrow> 'a) \<Rightarrow> int \<Rightarrow> int
     \<Rightarrow> int \<Rightarrow> int \<Rightarrow> 'a" where
  "parallel_conv2d_result f H W g kH kW n k =
     fold (\<lambda>j. fold (\<lambda>i result.
                  result + f_val f H W (n + i) (k + j)
                           * g (IDX (i + window_half kH) (j + window_half kW) kW))
                (tap_range kH))
       (tap_range kW) 0"

text \<open>
  \<^verbatim>\<open>int parallel_conv2d(float* f, int H, int W, float* g, int kH, int kW, float_array padded_output)\<close>.
  Each iteration of the collapsed \<open>(n, k)\<close> loop reads \<open>f\<close> and \<open>g\<close> only and
  stores one cell, so the stores are made in loop order here.
\<close>

definition parallel_conv2d ::
  "(int \<Rightarrow> 'a::{zero,plus,times}) \<Rightarrow> int \<Rightarrow> int \<Rightarrow> (int \<Rightarrow> 'a) \<Rightarrow> int \<Rightarrow> int
     \<Rightarrow> 'a float_array \<Rightarrow> int \<times> 'a float_array" where
  "parallel_conv2d f H W g kH kW padded_output =
     (0, padded_output\<lparr>arr :=
           fold (\<lambda>n. fold (\<lambda>k out.
                        out(IDX n k W := parallel_conv2d_result f H W g kH kW n k))
                      [0 .. W - 1])
             [0 .. H - 1] (arr padded_output)\<rparr>)"

section \<open>The padded variant (conv2d.c)\<close>

text \<open>
  \<^verbatim>\<open>conv2d\<close> of conv2d.c reads a feature buffer that already holds the padding:
  no guard, row stride \<open>total_width\<close>, and \<open>(n, k)\<close> running over the inner
  region of the padded buffer.
\<close>

definition conv2d_c_result ::
  "(int \<Rightarrow> 'a::{zero,plus,times}) \<Rightarrow> int \<Rightarrow> (int \<Rightarrow> 'a) \<Rightarrow> int \<Rightarrow> int
     \<Rightarrow> int \<Rightarrow> int \<Rightarrow> 'a" where
  "conv2d_c_result f total_width g kH kW n k =
     fold (\<lambda>i. fold (\<lambda>j result.
                  result + f (IDX (n + i) (k + j) total_width)
                           * g (IDX (i + window_half kH) (j + window_half kW) kW))
                (tap_range kW))
       (tap_range kH) 0"

definition conv2d_c ::
  "(int \<Rightarrow> 'a::{zero,plus,times}) \<Rightarrow> int \<Rightarrow> int \<Rightarrow> (int \<Rightarrow> 'a) \<Rightarrow> int \<Rightarrow> int
     \<Rightarrow> int \<Rightarrow> int \<Rightarrow> (int \<Rightarrow> 'a) \<Rightarrow> int \<times> (int \<Rightarrow> 'a)" where
  "conv2d_c f H W g kH kW w_padding h_padding output =
     (let total_height = H + h_padding * 2;
          total_width = W + w_padding * 2
      in (0, fold (\<lambda>n. fold (\<lambda>k out.
                          out(IDX (n - h_padding) (k - w_padding) W :=
                                conv2d_c_result f total_width g kH kW n k))
                        [w_padding .. total_width - w_padding - 1])
               [h_padding .. total_height - h_padding - 1] output))"

text \<open>
  \<^verbatim>\<open>parallel_conv2d\<close> of conv2d.c checks all four bounds (line 205) and ignores
  its two padding arguments.
\<close>

definition f_val_c :: "(int \<Rightarrow> 'a::zero) \<Rightarrow> int \<Rightarrow> int \<Rightarrow> int \<Rightarrow> int \<Rightarrow> 'a" where
  "f_val_c f H W col row =
     (if col \<ge> 0 \<and> col < H \<and> row \<ge> 0 \<and> row < W then f (IDX col row W) else 0)"

definition parallel_conv2d_c_result ::
  "(int \<Rightarrow> 'a::{zero,plus,times}) \<Rightarrow> int \<Rightarrow> int \<Rightarrow> (int \<Rightarrow> 'a) \<Rightarrow> int \<Rightarrow> int
     \<Rightarrow> int \<Rightarrow> int \<Rightarrow> 'a" where
  "parallel_conv2d_c_result f H W g kH kW n k =
     fold (\<lambda>j. fold (\<lambda>i result.
                  result + f_val_c f H W (n + i) (k + j)
                           * g (IDX (i + window_half kH) (j + window_half kW) kW))
                (tap_range kH))
       (tap_range kW) 0"

definition parallel_conv2d_c ::
  "(int \<Rightarrow> 'a::{zero,plus,times}) \<Rightarrow> int \<Rightarrow> int \<Rightarrow> (int \<Rightarrow> 'a) \<Rightarrow> int \<Rightarrow> int
     \<Rightarrow> int \<Rightarrow> int \<Rightarrow> 'a float_array \<Rightarrow> int \<times> 'a float_array" where
  "parallel_conv2d_c f H W g kH kW w_padding h_padding padded_output =
     (0, padded_output\<lparr>arr :=
           fold (\<lambda>n. fold (\<lambda>k out.
                        out(IDX n k W := parallel_conv2d_c_result f H W g kH kW n k))
                      [0 .. W - 1])
             [0 .. H - 1] (arr padded_output)\<rparr>)"

section \<open>Single-precision samples\<close>

text \<open>
  The samples of the program are C \<^verbatim>\<open>float\<close>s, IEEE single precision: every sum
  and product is rounded to a 24-bit significand, to nearest, ties to even.
  \<open>float32\<close> is that arithmetic on integer values: \<open>Float32 a\<close> is the number
  \<open>a\<close>, and \<open>round24\<close> rounds an integer to the nearest one with at most 24
  significant bits. The sum and the product of two integer-valued floats are
  the rounded exact results, so the model is exact for them as long as the
  magnitudes stay below the overflow threshold \<open>2 ^ 128\<close>; fractions,
  infinities and NaN are not represented.

  \<open>exponent24 a\<close> is the number of low bits that \<open>a\<close> loses, \<open>0\<close> below \<open>2 ^ 24\<close>.
\<close>

fun exponent24 :: "nat \<Rightarrow> nat" where
  "exponent24 a = (if a < 16777216 then 0 else Suc (exponent24 (a div 2)))"

declare exponent24.simps [simp del]

definition round24 :: "int \<Rightarrow> int" where
  "round24 x =
     (let a = nat \<bar>x\<bar>;
          e = exponent24 a;
          q = a div 2 ^ e;
          r = a mod 2 ^ e;
          q' = (if 2 * r > 2 ^ e \<or> (2 * r = 2 ^ e \<and> odd q) then q + 1 else q)
      in sgn x * int (q' * 2 ^ e))"

datatype float32 = Float32 (float32_int: int)

instantiation float32 :: "{zero,plus,times}"
begin

definition zero_float32 :: float32 where
  "zero_float32 = Float32 0"

definition plus_float32 :: "float32 \<Rightarrow> float32 \<Rightarrow> float32" where
  "plus_float32 x y = Float32 (round24 (float32_int x + float32_int y))"

definition times_float32 :: "float32 \<Rightarrow> float32 \<Rightarrow> float32" where
  "times_float32 x y = Float32 (round24 (float32_int x * float32_int y))"

instance ..

end

section \<open>Window geometry\<close>

lemma window_half_pos: "1 \<le> k \<Longrightarrow> window_half k = k div 2"
  by (simp add: window_half_def c_div_def)

lemma window_offset_pos: "1 \<le> k \<Longrightarrow> window_offset k = (if even k then 1 else 0)"
  unfolding window_offset_def c_mod_def c_div_def by (simp; presburger)

lemma tap_range_pos:
  "1 \<le> k \<Longrightarrow> tap_range k = [- (k div 2) .. k div 2 - (if even k then 1 else 0)]"
  by (simp add: tap_range_def window_half_pos window_offset_pos)

lemma tap_range_length:
  "1 \<le> k \<Longrightarrow> length [- (k div 2) .. k div 2 - (if even k then 1 else 0)] = nat k"
  by (simp; presburger)

text \<open>
  Claim C4. For kernel sizes \<open>kH, kW \<ge> 1\<close> the accumulator of each of the four
  routines is the sum over exactly the row offsets from \<open>- (kH / 2)\<close> to
  \<open>kH / 2 - (1 if kH is even else 0)\<close> and the column offsets from \<open>- (kW / 2)\<close>
  to \<open>kW / 2 - (1 if kW is even else 0)\<close>, in ascending order, \<open>kH\<close> and \<open>kW\<close> of
  them, with the kernel read at \<open>(i + kH / 2, j + kW / 2)\<close>; for kernel height 2
  the serial and the parallel routine walk the rows \<open>-1, 0\<close> and for height 4
  the rows \<open>-2, -1, 0, 1\<close>: the extra tap of an even axis is on the negative
  side.
\<close>

theorem tap_range_exact:
  fixes f g :: "int \<Rightarrow> 'a::{zero,plus,times}"
  assumes "1 \<le> kH" "1 \<le> kW"
  shows "conv2d_result f H W g kH kW n k
           = fold (\<lambda>i. fold (\<lambda>j result.
                        result + f_val f H W (n + i) (k + j)
                                 * g (IDX (i + kH div 2) (j + kW div 2) kW))
                      [- (kW div 2) .. kW div 2 - (if even kW then 1 else 0)])
               [- (kH div 2) .. kH div 2 - (if even kH then 1 else 0)] 0
       \<and> parallel_conv2d_result f H W g kH kW n k
           = fold (\<lambda>j. fold (\<lambda>i result.
                        result + f_val f H W (n + i) (k + j)
                                 * g (IDX (i + kH div 2) (j + kW div 2) kW))
                      [- (kH div 2) .. kH div 2 - (if even kH then 1 else 0)])
               [- (kW div 2) .. kW div 2 - (if even kW then 1 else 0)] 0
       \<and> conv2d_c_result f total_width g kH kW n k
           = fold (\<lambda>i. fold (\<lambda>j result.
                        result + f (IDX (n + i) (k + j) total_width)
                                 * g (IDX (i + kH div 2) (j + kW div 2) kW))
                      [- (kW div 2) .. kW div 2 - (if even kW then 1 else 0)])
               [- (kH div 2) .. kH div 2 - (if even kH then 1 else 0)] 0
       \<and> parallel_conv2d_c_result f H W g kH kW n k
           = fold (\<lambda>j. fold (\<lambda>i result.
                        result + f_val_c f H W (n + i) (k + j)
                                 * g (IDX (i + kH div 2) (j + kW div 2) kW))
                      [- (kH div 2) .. kH div 2 - (if even kH then 1 else 0)])
               [- (kW div 2) .. kW div 2 - (if even kW then 1 else 0)] 0
       \<and> length [- (kH div 2) .. kH div 2 - (if even kH then 1 else 0)] = nat kH
       \<and> length [- (kW div 2) .. kW div 2 - (if even kW then 1 else 0)] = nat kW
       \<and> tap_range kH = [- (kH div 2) .. kH div 2 - (if even kH then 1 else 0)]
       \<and> distinct (tap_range kH)
       \<and> conv2d_result f H W g 2 kW n k
           = fold (\<lambda>i. fold (\<lambda>j result.
                        result + f_val f H W (n + i) (k + j) * g (IDX (i + 1) (j + kW div 2) kW))
                      [- (kW div 2) .. kW div 2 - (if even kW then 1 else 0)])
               [- 1, 0] 0
       \<and> conv2d_result f H W g 4 kW n k
           = fold (\<lambda>i. fold (\<lambda>j result.
                        result + f_val f H W (n + i) (k + j) * g (IDX (i + 2) (j + kW div 2) kW))
                      [- (kW div 2) .. kW div 2 - (if even kW then 1 else 0)])
               [- 2, - 1, 0, 1] 0
       \<and> parallel_conv2d_result f H W g 2 kW n k
           = fold (\<lambda>j. fold (\<lambda>i result.
                        result + f_val f H W (n + i) (k + j) * g (IDX (i + 1) (j + kW div 2) kW))
                      [- 1, 0])
               [- (kW div 2) .. kW div 2 - (if even kW then 1 else 0)] 0
       \<and> parallel_conv2d_result f H W g 4 kW n k
           = fold (\<lambda>j. fold (\<lambda>i result.
                        result + f_val f H W (n + i) (k + j) * g (IDX (i + 2) (j + kW div 2) kW))
                      [- 2, - 1, 0, 1])
               [- (kW div 2) .. kW div 2 - (if even kW then 1 else 0)] 0"
proof -
  have rows: "tap_range kH = [- (kH div 2) .. kH div 2 - (if even kH then 1 else 0)]"
    and cols: "tap_range kW = [- (kW div 2) .. kW div 2 - (if even kW then 1 else 0)]"
    using assms by (simp_all only: tap_range_pos)
  have M: "window_half kH = kH div 2" and N: "window_half kW = kW div 2"
    using assms by (simp_all only: window_half_pos)
  have two: "tap_range 2 = [- 1, 0]" "window_half 2 = 1"
    and four: "tap_range 4 = [- 2, - 1, 0, 1]" "window_half 4 = 2"
    by (simp_all add: tap_range_pos window_half_pos upto.simps)
  have len: "length [- (kH div 2) .. kH div 2 - (if even kH then 1 else 0)] = nat kH"
    "length [- (kW div 2) .. kW div 2 - (if even kW then 1 else 0)] = nat kW"
    using assms by (simp_all only: tap_range_length)
  have acc: "conv2d_result f H W g kH kW n k
           = fold (\<lambda>i. fold (\<lambda>j result.
                        result + f_val f H W (n + i) (k + j)
                                 * g (IDX (i + kH div 2) (j + kW div 2) kW))
                      [- (kW div 2) .. kW div 2 - (if even kW then 1 else 0)])
               [- (kH div 2) .. kH div 2 - (if even kH then 1 else 0)] 0"
    "parallel_conv2d_result f H W g kH kW n k
           = fold (\<lambda>j. fold (\<lambda>i result.
                        result + f_val f H W (n + i) (k + j)
                                 * g (IDX (i + kH div 2) (j + kW div 2) kW))
                      [- (kH div 2) .. kH div 2 - (if even kH then 1 else 0)])
               [- (kW div 2) .. kW div 2 - (if even kW then 1 else 0)] 0"
    "conv2d_c_result f total_width g kH kW n k
           = fold (\<lambda>i. fold (\<lambda>j result.
                        result + f (IDX (n + i) (k + j) total_width)
                                 * g (IDX (i + kH div 2) (j + kW div 2) kW))
                      [- (kW div 2) .. kW div 2 - (if even kW then 1 else 0)])
               [- (kH div 2) .. kH div 2 - (if even kH then 1 else 0)] 0"
    "parallel_conv2d_c_result f H W g kH kW n k
           = fold (\<lambda>j. fold (\<lambda>i result.
                        result + f_val_c f H W (n + i) (k + j)
                                 * g (IDX (i + kH div 2) (j + kW div 2) kW))
                      [- (kH div 2) .. kH div 2 - (if even kH then 1 else 0)])
               [- (kW div 2) .. kW div 2 - (if even kW then 1 else 0)] 0"
    unfolding conv2d_result_def parallel_conv2d_result_def conv2d_c_result_def
      parallel_conv2d_c_result_def rows cols M N by (rule refl)+
  have small: "conv2d_result f H W g 2 kW n k
           = fold (\<lambda>i. fold (\<lambda>j result.
                        result + f_val f H W (n + i) (k + j) * g (IDX (i + 1) (j + kW div 2) kW))
                      [- (kW div 2) .. kW div 2 - (if even kW then 1 else 0)])
               [- 1, 0] 0"
    "conv2d_result f H W g 4 kW n k
           = fold (\<lambda>i. fold (\<lambda>j result.
                        result + f_val f H W (n + i) (k + j) * g (IDX (i + 2) (j + kW div 2) kW))
                      [- (kW div 2) .. kW div 2 - (if even kW then 1 else 0)])
               [- 2, - 1, 0, 1] 0"
    "parallel_conv2d_result f H W g 2 kW n k
           = fold (\<lambda>j. fold (\<lambda>i result.
                        result + f_val f H W (n + i) (k + j) * g (IDX (i + 1) (j + kW div 2) kW))
                      [- 1, 0])
               [- (kW div 2) .. kW div 2 - (if even kW then 1 else 0)] 0"
    "parallel_conv2d_result f H W g 4 kW n k
           = fold (\<lambda>j. fold (\<lambda>i result.
                        result + f_val f H W (n + i) (k + j) * g (IDX (i + 2) (j + kW div 2) kW))
                      [- 2, - 1, 0, 1])
               [- (kW div 2) .. kW div 2 - (if even kW then 1 else 0)] 0"
    unfolding conv2d_result_def parallel_conv2d_result_def two four cols N by (rule refl)+
  show ?thesis
    unfolding rows by (intro conjI acc len small refl distinct_upto)
qed

theorem tap_range_exact_witness:
  "(1::int) \<le> 2 \<and> (1::int) \<le> 1
   \<and> conv2d_result (buffer [1, 10, 100 :: real] blank) 3 1 (buffer [1, 1] blank) 2 1 1 0 = 11
   \<and> parallel_conv2d_result (buffer [1, 10, 100 :: real] blank) 3 1 (buffer [1, 1] blank) 2 1 1 0 = 11"
proof -
  have a: "(1::int) \<le> 2" and b: "(1::int) \<le> 1"
    by simp_all
  note t = tap_range_exact [OF a b, where f = "buffer [1, 10, 100 :: real] blank" and H = 3
      and W = 1 and g = "buffer [1, 1] blank" and n = 1 and k = 0]
  from t [THEN conjunct1] t [THEN conjunct2, THEN conjunct1] show ?thesis
    by (simp add: f_val_def IDX_def buffer_def blank_def upto.simps)
qed

lemma IDX_in_kernel:
  assumes "0 \<le> a" "a < kH" "0 \<le> b" "b < kW"
  shows "0 \<le> IDX a b kW \<and> IDX a b kW < kH * kW"
proof -
  have "a * kW + b < (a + 1) * kW"
    using assms by (simp add: algebra_simps)
  also have "\<dots> \<le> kH * kW"
    using assms by (intro mult_right_mono) auto
  finally show ?thesis
    using assms by (simp add: IDX_def)
qed

text \<open>
  Claim C8. For kernel sizes \<open>kH, kW \<ge> 1\<close> and tap offsets \<open>i, j\<close> that the loops
  visit, the kernel is read at row \<open>i + M\<close> and column \<open>j + N\<close> with
  \<open>0 \<le> i + M < kH\<close> and \<open>0 \<le> j + N < kW\<close>, so the flat index
  \<open>IDX (i + M) (j + N) kW\<close> lies inside the \<open>kH * kW\<close> samples of the kernel.
\<close>

theorem kernel_index_in_bounds:
  assumes "1 \<le> kH" "1 \<le> kW" "i \<in> set (tap_range kH)" "j \<in> set (tap_range kW)"
  shows "0 \<le> i + window_half kH \<and> i + window_half kH < kH
       \<and> 0 \<le> j + window_half kW \<and> j + window_half kW < kW
       \<and> 0 \<le> IDX (i + window_half kH) (j + window_half kW) kW
       \<and> IDX (i + window_half kH) (j + window_half kW) kW < kH * kW"
proof -
  have i: "0 \<le> i + window_half kH \<and> i + window_half kH < kH"
    using assms(1,3) by (simp add: tap_range_pos window_half_pos split: if_splits; presburger)
  have j: "0 \<le> j + window_half kW \<and> j + window_half kW < kW"
    using assms(2,4) by (simp add: tap_range_pos window_half_pos split: if_splits; presburger)
  from i j IDX_in_kernel [of "i + window_half kH" kH "j + window_half kW" kW]
  show ?thesis by blast
qed

theorem kernel_index_in_bounds_witness:
  "(1::int) \<le> 2 \<and> (1::int) \<le> 3 \<and> - 1 \<in> set (tap_range 2) \<and> 1 \<in> set (tap_range 3)
   \<and> IDX (- 1 + window_half 2) (1 + window_half 3) 3 = 2
   \<and> IDX (- 1 + window_half 2) (1 + window_half 3) 3 < 2 * 3"
  using kernel_index_in_bounds [of 2 3 "- 1" 1]
  by (simp add: tap_range_pos window_half_pos IDX_def)

section \<open>Status code\<close>

text \<open>
  Claim C10. Whatever the buffers and the dimensions are, non-positive ones
  included, the serial and the parallel routine of both source files return the
  status \<open>0\<close>: their return value never reports a failure.
\<close>

theorem status_always_zero:
  "fst (conv2d f H W g kH kW output) = 0
   \<and> fst (parallel_conv2d f H W g kH kW padded_output) = 0
   \<and> fst (conv2d_c f H W g kH kW w_padding h_padding output) = 0
   \<and> fst (parallel_conv2d_c f H W g kH kW w_padding h_padding padded_output) = 0"
  by (simp add: conv2d_def parallel_conv2d_def conv2d_c_def parallel_conv2d_c_def)

section \<open>The cells a call stores\<close>

text \<open>
  The two outer loops store one value per pair \<open>(n, k)\<close>. Their effect on the
  output memory is that of one pass over the list of all pairs, and the flat
  indices of distinct pairs differ.
\<close>

lemma fold_upd_other:
  "i \<notin> key ` set xs \<Longrightarrow> fold (\<lambda>x m. m(key x := val x)) xs m i = m i"
  by (induction xs arbitrary: m) auto

lemma fold_upd_hit:
  "distinct (map key xs) \<Longrightarrow> x \<in> set xs \<Longrightarrow> fold (\<lambda>x m. m(key x := val x)) xs m (key x) = val x"
proof (induction xs arbitrary: m)
  case Nil
  then show ?case by simp
next
  case (Cons y ys)
  let ?F = "\<lambda>x m. m(key x := val x)"
  have step: "fold ?F (y # ys) m = fold ?F ys (m(key y := val y))"
    by (simp only: fold_simps comp_apply)
  show ?case
  proof (cases "x = y")
    case True
    from Cons.prems have "key y \<notin> key ` set ys" by auto
    then have "fold ?F ys (m(key y := val y)) (key y) = (m(key y := val y)) (key y)"
      by (rule fold_upd_other)
    then show ?thesis unfolding step True by simp
  next
    case False
    with Cons.prems have "distinct (map key ys)" "x \<in> set ys" by auto
    then show ?thesis unfolding step by (rule Cons.IH)
  qed
qed

lemma fold_nested:
  "fold (\<lambda>n. fold (F n) ks) ns = fold (\<lambda>(n, k). F n k) (List.product ns ks)"
proof (induction ns)
  case Nil
  then show ?case by simp
next
  case (Cons n ns)
  have "fold (\<lambda>(n, k). F n k) (map (Pair n) ks) = fold (F n) ks"
    by (simp add: fold_map comp_def)
  with Cons show ?case by simp
qed

lemma IDX_inj:
  assumes "0 \<le> k" "k < W" "0 \<le> k'" "k' < W" "IDX n k W = IDX n' k' W"
  shows "n = n' \<and> k = k'"
proof -
  have "(n * W + k) div W = n" "(n' * W + k') div W = n'"
    using assms by simp_all
  moreover have "(n * W + k) mod W = k" "(n' * W + k') mod W = k'"
    using assms by simp_all
  ultimately show ?thesis
    using assms(5) unfolding IDX_def by metis
qed

lemma cells_distinct:
  "distinct (map (\<lambda>(n, k). IDX n k W) (List.product [0 .. H - 1] [0 .. W - 1]))"
proof -
  have "inj_on (\<lambda>(n, k). IDX n k W) (set (List.product [0 .. H - 1] [0 .. W - 1]))"
    by (auto simp: inj_on_def dest: IDX_inj [of _ W])
  then show ?thesis
    by (simp add: distinct_map distinct_product)
qed

lemma store_fold_eq:
  "fold (\<lambda>n. fold (\<lambda>k out. out(IDX n k W := c n k)) [0 .. W - 1]) [0 .. H - 1] output
   = fold (\<lambda>x m. m((\<lambda>(n, k). IDX n k W) x := (\<lambda>(n, k). c n k) x))
       (List.product [0 .. H - 1] [0 .. W - 1]) output"
proof -
  have "(\<lambda>(n, k) out. out(IDX n k W := c n k))
        = (\<lambda>x m. m((\<lambda>(n, k). IDX n k W) x := (\<lambda>(n, k). c n k) x))"
    by (simp add: fun_eq_iff split: prod.splits)
  then show ?thesis
    by (simp add: fold_nested)
qed

lemma store_cell:
  assumes "0 \<le> n" "n < H" "0 \<le> k" "k < W"
  shows "fold (\<lambda>n. fold (\<lambda>k out. out(IDX n k W := c n k)) [0 .. W - 1]) [0 .. H - 1] output
           (IDX n k W) = c n k"
proof -
  have "(n, k) \<in> set (List.product [0 .. H - 1] [0 .. W - 1])"
    using assms by simp
  from fold_upd_hit [where val = "\<lambda>(n, k). c n k" and m = "output", OF cells_distinct this]
  show ?thesis
    by (simp add: store_fold_eq)
qed

lemma store_frame:
  assumes "idx < 0 \<or> H * W \<le> idx"
  shows "fold (\<lambda>n. fold (\<lambda>k out. out(IDX n k W := c n k)) [0 .. W - 1]) [0 .. H - 1] output idx
         = output idx"
proof -
  have "idx \<notin> (\<lambda>(n, k). IDX n k W) ` set (List.product [0 .. H - 1] [0 .. W - 1])"
  proof
    assume "idx \<in> (\<lambda>(n, k). IDX n k W) ` set (List.product [0 .. H - 1] [0 .. W - 1])"
    then obtain n k where "idx = IDX n k W" "0 \<le> n" "n < H" "0 \<le> k" "k < W"
      by auto
    with IDX_in_kernel [of n H k W] assms show False by simp
  qed
  then show ?thesis
    unfolding store_fold_eq by (rule fold_upd_other)
qed

lemma cells_bij:
  assumes "1 \<le> W"
  shows "bij_betw (\<lambda>(n, k). IDX n k W) ({0 ..< H} \<times> {0 ..< W}) {0 ..< H * W}"
  unfolding bij_betw_def
proof
  show "inj_on (\<lambda>(n, k). IDX n k W) ({0 ..< H} \<times> {0 ..< W})"
    by (auto simp: inj_on_def dest: IDX_inj [of _ W])
  show "(\<lambda>(n, k). IDX n k W) ` ({0 ..< H} \<times> {0 ..< W}) = {0 ..< H * W}"
  proof (intro equalityI subsetI)
    fix idx assume "idx \<in> (\<lambda>(n, k). IDX n k W) ` ({0 ..< H} \<times> {0 ..< W})"
    then obtain n k where "idx = IDX n k W" "0 \<le> n" "n < H" "0 \<le> k" "k < W"
      by auto
    with IDX_in_kernel [of n H k W] show "idx \<in> {0 ..< H * W}" by simp
  next
    fix idx assume a: "idx \<in> {0 ..< H * W}"
    have "idx div W < H"
    proof (rule ccontr)
      assume "\<not> idx div W < H"
      then have "H * W \<le> (idx div W) * W"
        using assms by (intro mult_right_mono) auto
      also have "\<dots> = idx - idx mod W"
        by (simp add: minus_mod_eq_div_mult)
      also have "\<dots> \<le> idx"
        using assms by simp
      finally show False using a by simp
    qed
    moreover have "0 \<le> idx div W"
      using a assms by (simp add: pos_imp_zdiv_nonneg_iff)
    moreover have "0 \<le> idx mod W" "idx mod W < W"
      using assms by simp_all
    moreover have "idx = IDX (idx div W) (idx mod W) W"
      by (simp add: IDX_def)
    ultimately show "idx \<in> (\<lambda>(n, k). IDX n k W) ` ({0 ..< H} \<times> {0 ..< W})"
      by (intro image_eqI [where x = "(idx div W, idx mod W)"]) auto
  qed
qed

lemma conv2d_cell:
  assumes "0 \<le> n" "n < H" "0 \<le> k" "k < W"
  shows "snd (conv2d f H W g kH kW out) (IDX n k W) = conv2d_result f H W g kH kW n k"
  unfolding conv2d_def snd_conv using assms by (rule store_cell)

lemma parallel_conv2d_cell:
  assumes "0 \<le> n" "n < H" "0 \<le> k" "k < W"
  shows "arr (snd (parallel_conv2d f H W g kH kW padded_output)) (IDX n k W)
         = parallel_conv2d_result f H W g kH kW n k"
  using assms by (simp add: parallel_conv2d_def store_cell)

lemma parallel_conv2d_c_cell:
  assumes "0 \<le> n" "n < H" "0 \<le> k" "k < W"
  shows "arr (snd (parallel_conv2d_c f H W g kH kW w_padding h_padding padded_output)) (IDX n k W)
         = parallel_conv2d_c_result f H W g kH kW n k"
  using assms by (simp add: parallel_conv2d_c_def store_cell)

lemma conv2d_frame:
  assumes "idx < 0 \<or> H * W \<le> idx"
  shows "snd (conv2d f H W g kH kW out) idx = out idx"
  unfolding conv2d_def snd_conv using assms by (rule store_frame)

lemma parallel_conv2d_frame:
  assumes "idx < 0 \<or> H * W \<le> idx"
  shows "arr (snd (parallel_conv2d f H W g kH kW padded_output)) idx = arr padded_output idx"
  using assms by (simp add: parallel_conv2d_def store_frame)

text \<open>The unfolding rules that evaluate a call on concrete buffers.\<close>

lemmas eval_defs =
  conv2d_result_def parallel_conv2d_result_def conv2d_c_result_def parallel_conv2d_c_result_def
  f_val_def f_val_c_def tap_range_def window_half_def window_offset_def c_div_def c_mod_def
  IDX_def buffer_def blank_def zero_padded_def upto.simps

text \<open>
  Claim C6. For \<open>H, W \<ge> 1\<close> and any kernel size, larger than the feature map
  or not, the serial and the parallel routine store the accumulated value of
  cell \<open>(n, k)\<close> at index \<open>IDX n k W\<close> for every \<open>0 \<le> n < H\<close>, \<open>0 \<le> k < W\<close>, and
  leave every index outside \<open>0 ..< H * W\<close> as it was; the pairs \<open>(n, k)\<close>
  correspond one to one to the indices \<open>0 ..< H * W\<close>, so the output is exactly
  \<open>H \<times> W\<close> cells.
\<close>

theorem output_cells_exact:
  assumes "1 \<le> H" "1 \<le> W"
  shows "(\<forall>n k. 0 \<le> n \<and> n < H \<and> 0 \<le> k \<and> k < W \<longrightarrow>
            snd (conv2d f H W g kH kW out) (IDX n k W) = conv2d_result f H W g kH kW n k
          \<and> arr (snd (parallel_conv2d f H W g kH kW padded_output)) (IDX n k W)
              = parallel_conv2d_result f H W g kH kW n k)
       \<and> (\<forall>idx. idx < 0 \<or> H * W \<le> idx \<longrightarrow>
            snd (conv2d f H W g kH kW out) idx = out idx
          \<and> arr (snd (parallel_conv2d f H W g kH kW padded_output)) idx = arr padded_output idx)
       \<and> bij_betw (\<lambda>(n, k). IDX n k W) ({0 ..< H} \<times> {0 ..< W}) {0 ..< H * W}"
  using assms(2)
  by (simp add: conv2d_cell parallel_conv2d_cell conv2d_frame parallel_conv2d_frame cells_bij)

theorem output_cells_exact_witness:
  "(1::int) \<le> 2
   \<and> snd (conv2d (buffer [1, 1, 1, 1 :: real] blank) 2 2 (buffer (replicate 9 1) blank) 3 3 blank)
        (IDX 1 1 2) = 4
   \<and> snd (conv2d (buffer [1, 1, 1, 1 :: real] blank) 2 2 (buffer (replicate 9 1) blank) 3 3 blank)
        4 = 0"
proof -
  have "conv2d_result (buffer [1, 1, 1, 1 :: real] blank) 2 2 (buffer (replicate 9 1) blank) 3 3 1 1 = 4"
    by (simp add: eval_defs)
  with output_cells_exact [where H = 2 and W = 2 and f = "buffer [1, 1, 1, 1 :: real] blank"
      and g = "buffer (replicate 9 1) blank" and kH = 3 and kW = 3 and out = blank]
  show ?thesis by (simp add: blank_def)
qed

section \<open>One-by-one kernels\<close>

lemma conv2d_result_1x1:
  fixes f g :: "int \<Rightarrow> 'a::{zero,plus,times}"
  assumes add0: "\<And>x::'a. 0 + x = x" and "0 \<le> n" "n < H" "0 \<le> k" "k < W"
  shows "conv2d_result f H W g 1 1 n k = f (IDX n k W) * g 0"
    and "parallel_conv2d_result f H W g 1 1 n k = f (IDX n k W) * g 0"
  using assms
  by (simp_all add: conv2d_result_def parallel_conv2d_result_def tap_range_def window_half_def
      window_offset_def c_div_def c_mod_def f_val_def IDX_def)

text \<open>
  Claim C7. With a \<open>1 \<times> 1\<close> kernel every output cell \<open>(n, k)\<close> is
  \<open>feature[n, k] * kernel[0, 0]\<close>, and with kernel \<open>[[1]]\<close> it is \<open>feature[n, k]\<close>
  itself. The only laws of the sample arithmetic used are \<open>0 + x = x\<close> (the
  accumulator starts at \<open>0\<close>) and \<open>x * 1 = x\<close>; no rounding of a sum of several
  taps is involved.
\<close>

theorem one_by_one_kernel:
  fixes f g :: "int \<Rightarrow> 'a::{zero,one,plus,times}"
  assumes add0: "\<And>x::'a. 0 + x = x" and mul1: "\<And>x::'a. x * 1 = x"
    and cell: "0 \<le> n" "n < H" "0 \<le> k" "k < W"
  shows "snd (conv2d f H W g 1 1 out) (IDX n k W) = f (IDX n k W) * g 0
       \<and> arr (snd (parallel_conv2d f H W g 1 1 padded_output)) (IDX n k W) = f (IDX n k W) * g 0
       \<and> (g 0 = 1 \<longrightarrow>
            snd (conv2d f H W g 1 1 out) (IDX n k W) = f (IDX n k W)
          \<and> arr (snd (parallel_conv2d f H W g 1 1 padded_output)) (IDX n k W) = f (IDX n k W))"
  using cell
  by (simp add: conv2d_cell parallel_conv2d_cell conv2d_result_1x1 [OF add0] mul1)

theorem one_by_one_kernel_witness:
  "snd (conv2d (buffer [5, 6, 7, 8 :: real] blank) 2 2 (buffer [3] blank) 1 1 blank) (IDX 1 0 2) = 21
   \<and> snd (conv2d (buffer [5, 6, 7, 8 :: real] blank) 2 2 (buffer [1] blank) 1 1 blank) (IDX 1 0 2) = 7"
  using one_by_one_kernel [where f = "buffer [5, 6, 7, 8 :: real] blank" and n = 1 and H = 2
      and k = 0 and W = 2 and g = "buffer [3] blank" and out = blank]
    one_by_one_kernel [where f = "buffer [5, 6, 7, 8 :: real] blank" and n = 1 and H = 2
      and k = 0 and W = 2 and g = "buffer [1] blank" and out = blank]
  by (simp add: buffer_def IDX_def)

section \<open>Non-positive dimensions\<close>

text \<open>
  Claim C9 asks for a call with a non-positive dimension to be rejected with
  an error. Neither routine validates its arguments: with all four dimensions
  \<open>0\<close> the status returned is \<open>0\<close>, the value of success.
\<close>

theorem nonpositive_dimensions_counterexample:
  "\<not> (fst (conv2d (blank :: int \<Rightarrow> real) 0 0 blank 0 0 blank) \<noteq> 0)
   \<and> \<not> (fst (parallel_conv2d (blank :: int \<Rightarrow> real) 0 0 blank 0 0 \<lparr>arr = blank, padding = None\<rparr>) \<noteq> 0)"
  by (simp add: conv2d_def parallel_conv2d_def)

text \<open>
  Claim C9, amended. A call in which a feature or kernel dimension is
  non-positive is not rejected: both routines return the status \<open>0\<close>; when the
  feature height or width is non-positive the loops over the cells do not run
  and the output buffer is left untouched.
\<close>

theorem nonpositive_dimensions_accepted:
  assumes "H \<le> 0 \<or> W \<le> 0 \<or> kH \<le> 0 \<or> kW \<le> 0"
  shows "fst (conv2d f H W g kH kW out) = 0
       \<and> fst (parallel_conv2d f H W g kH kW padded_output) = 0
       \<and> (H \<le> 0 \<or> W \<le> 0 \<longrightarrow>
            conv2d f H W g kH kW out = (0, out)
          \<and> parallel_conv2d f H W g kH kW padded_output = (0, padded_output))"
proof -
  have "fold (\<lambda>n. fold (\<lambda>k out. out(IDX n k W := c n k)) [0 .. W - 1]) [0 .. H - 1] m = m"
    if "H \<le> 0 \<or> W \<le> 0" for c and m :: "int \<Rightarrow> 'a"
  proof (cases "H \<le> 0")
    case True
    then show ?thesis by simp
  next
    case False
    with that have "[0 .. W - 1] = []" by simp
    then show ?thesis by (simp add: fold_id)
  qed
  then show ?thesis
    by (simp add: conv2d_def parallel_conv2d_def)
qed

theorem nonpositive_dimensions_accepted_witness:
  "((0::int) \<le> 0 \<or> (3::int) \<le> 0 \<or> (- 2 :: int) \<le> 0 \<or> (0::int) \<le> 0)
   \<and> conv2d (blank :: int \<Rightarrow> real) 0 3 blank (- 2) 0 blank = (0, blank)"
  using nonpositive_dimensions_accepted [where H = 0 and W = 3 and kH = "- 2" and kW = 0
      and f = "blank :: int \<Rightarrow> real" and g = blank and out = blank]
  by simp

section \<open>The two orders of summation\<close>

text \<open>
  The serial routine adds the taps row by row, the parallel one column by
  column. Where addition is associative and commutative the two accumulators
  are equal.
\<close>

lemma fold_add_sum_list:
  fixes r :: "'a::monoid_add"
  shows "fold (\<lambda>x r. r + h x) xs r = r + sum_list (map h xs)"
  by (induction xs arbitrary: r) (simp_all add: add.assoc)

lemma fold_fold_add_sum_list:
  fixes r :: "'a::monoid_add"
  shows "fold (\<lambda>x. fold (\<lambda>y r. r + h x y) ys) xs r
         = r + (\<Sum>x\<leftarrow>xs. \<Sum>y\<leftarrow>ys. h x y)"
  by (induction xs arbitrary: r) (simp_all add: fold_add_sum_list add.assoc)

lemma sum_list_swap:
  fixes h :: "'b \<Rightarrow> 'c \<Rightarrow> 'a::comm_monoid_add"
  shows "(\<Sum>x\<leftarrow>xs. \<Sum>y\<leftarrow>ys. h x y) = (\<Sum>y\<leftarrow>ys. \<Sum>x\<leftarrow>xs. h x y)"
  by (induction xs) (simp_all add: sum_list_addf)

lemma exact_sums_agree:
  fixes f g :: "int \<Rightarrow> 'a::{comm_monoid_add,times}"
  shows "parallel_conv2d_result f H W g kH kW n k = conv2d_result f H W g kH kW n k"
  unfolding parallel_conv2d_result_def conv2d_result_def fold_fold_add_sum_list
  by (simp add: sum_list_swap [of _ "tap_range kW"])















section \<open>The boundary guard\<close>

text \<open>
  The padded variant reads zero for every tap outside the feature map: on the
  zero-padded copy, with the padding \<open>kH / 2\<close> and \<open>kW / 2\<close> that main passes, its
  accumulator is the sum over the taps guarded on all four sides, as conv2d.c's
  \<^verbatim>\<open>parallel_conv2d\<close> guards them.
\<close>

lemma zero_padded_tap:
  assumes "0 \<le> h_padding" "0 \<le> w_padding" "0 \<le> n" "n < H" "0 \<le> k" "k < W"
    and "- h_padding \<le> i" "i \<le> h_padding" "- w_padding \<le> j" "j \<le> w_padding"
  shows "zero_padded f H W h_padding w_padding
           (IDX (n + h_padding + i) (k + w_padding + j) (W + w_padding * 2))
         = f_val_c f H W (n + i) (k + j)"
proof -
  let ?tw = "W + w_padding * 2"
  let ?r = "n + h_padding + i" and ?c = "k + w_padding + j"
  have c: "0 \<le> ?c" "?c < ?tw" using assms by auto
  have r: "0 \<le> ?r" "?r < H + h_padding * 2" using assms by auto
  have "IDX ?r ?c ?tw div ?tw = ?r" "IDX ?r ?c ?tw mod ?tw = ?c"
    using c by (simp_all add: IDX_def)
  moreover have "0 \<le> IDX ?r ?c ?tw \<and> IDX ?r ?c ?tw < (H + h_padding * 2) * ?tw"
    using r c by (intro IDX_in_kernel) auto
  ultimately show ?thesis
    unfolding zero_padded_def f_val_c_def Let_def by (auto simp: algebra_simps)
qed

lemma tap_range_within_half:
  assumes "1 \<le> kH" "i \<in> set (tap_range kH)"
  shows "- window_half kH \<le> i \<and> i \<le> window_half kH \<and> 0 \<le> window_half kH"
  using assms by (simp add: tap_range_pos window_half_pos split: if_splits)

lemma conv2d_c_result_zero_padded:
  assumes "1 \<le> kH" "1 \<le> kW" "0 \<le> n" "n < H" "0 \<le> k" "k < W"
  shows "conv2d_c_result (zero_padded f H W (window_half kH) (window_half kW))
           (W + window_half kW * 2) g kH kW (n + window_half kH) (k + window_half kW)
         = fold (\<lambda>i. fold (\<lambda>j result.
                    result + f_val_c f H W (n + i) (k + j)
                             * g (IDX (i + window_half kH) (j + window_half kW) kW))
                  (tap_range kW))
             (tap_range kH) 0"
  unfolding conv2d_c_result_def
proof (rule fold_cong [OF refl refl])
  fix i assume "i \<in> set (tap_range kH)"
  with assms(1) have i: "- window_half kH \<le> i" "i \<le> window_half kH" "0 \<le> window_half kH"
    using tap_range_within_half by blast+
  show "fold (\<lambda>j result.
                result + zero_padded f H W (window_half kH) (window_half kW)
                           (IDX (n + window_half kH + i) (k + window_half kW + j)
                              (W + window_half kW * 2))
                         * g (IDX (i + window_half kH) (j + window_half kW) kW))
          (tap_range kW)
        = fold (\<lambda>j result.
                result + f_val_c f H W (n + i) (k + j)
                         * g (IDX (i + window_half kH) (j + window_half kW) kW))
            (tap_range kW)"
  proof (rule ext, rule fold_cong [OF refl refl])
    fix j assume "j \<in> set (tap_range kW)"
    with assms(2) have j: "- window_half kW \<le> j" "j \<le> window_half kW" "0 \<le> window_half kW"
      using tap_range_within_half by blast+
    show "(\<lambda>result.
              result + zero_padded f H W (window_half kH) (window_half kW)
                         (IDX (n + window_half kH + i) (k + window_half kW + j)
                            (W + window_half kW * 2))
                       * g (IDX (i + window_half kH) (j + window_half kW) kW))
          = (\<lambda>result.
              result + f_val_c f H W (n + i) (k + j)
                       * g (IDX (i + window_half kH) (j + window_half kW) kW))"
      unfolding zero_padded_tap [OF i(3) j(3) assms(3-6) i(1,2) j(1,2)] by (rule refl)
  qed
qed

text \<open>
  The guard of the unnamed source file agrees with the four-sided one on every
  tap whose column is not negative; on a tap left of the feature map, in a row
  inside it, it loads the sample \<open>- row\<close> places before the start of that row.
\<close>

lemma f_val_agree:
  "0 \<le> row \<Longrightarrow> f_val f H W col row = f_val_c f H W col row"
  by (simp add: f_val_def f_val_c_def)

lemma f_val_negative_column:
  "row < 0 \<Longrightarrow> 0 \<le> col \<Longrightarrow> col < H \<Longrightarrow> 0 \<le> W \<Longrightarrow>
     f_val f H W col row = f (col * W + row) \<and> f_val_c f H W col row = 0"
  by (simp add: f_val_def f_val_c_def IDX_def)

text \<open>
  Claim C1 says that a tap outside \<open>[0, H) \<times> [0, W)\<close> contributes \<open>0\<close>, a tap
  with a negative column in particular. The guard of the unnamed source file
  never tests \<open>row \<ge> 0\<close>. On the \<open>2 \<times> 2\<close> feature map \<open>[[1, 2], [3, 4]]\<close> with the
  \<open>1 \<times> 3\<close> kernel \<open>[1, 0, 0]\<close>, the tap of cell \<open>(1, 0)\<close> at row 1, column -1 reads
  \<open>f[1 * 2 - 1]\<close>, the sample \<open>2\<close> of row 0, so the cell becomes \<open>2\<close> in the serial
  and the parallel routine, where the four-sided guard of conv2d.c gives \<open>0\<close>;
  for cell \<open>(0, 0)\<close> the same tap reads index \<open>-1\<close>, before the buffer.
\<close>

theorem negative_column_tap_read:
  "f_val (buffer [1, 2, 3, 4 :: real] beyond_f) 2 2 1 (- 1) = 2
   \<and> f_val_c (buffer [1, 2, 3, 4 :: real] beyond_f) 2 2 1 (- 1) = 0
   \<and> snd (conv2d (buffer [1, 2, 3, 4 :: real] beyond_f) 2 2 (buffer [1, 0, 0] beyond_g) 1 3 out)
        (IDX 1 0 2) = 2
   \<and> arr (snd (parallel_conv2d (buffer [1, 2, 3, 4 :: real] beyond_f) 2 2
                 (buffer [1, 0, 0] beyond_g) 1 3 padded_output)) (IDX 1 0 2) = 2
   \<and> arr (snd (parallel_conv2d_c (buffer [1, 2, 3, 4 :: real] beyond_f) 2 2
                 (buffer [1, 0, 0] beyond_g) 1 3 1 0 padded_output)) (IDX 1 0 2) = 0
   \<and> snd (conv2d (buffer [1, 2, 3, 4 :: real] beyond_f) 2 2 (buffer [1, 0, 0] beyond_g) 1 3 out)
        (IDX 0 0 2) = beyond_f (- 1)"
proof -
  let ?f = "buffer [1, 2, 3, 4 :: real] beyond_f" and ?g = "buffer [1, 0, 0 :: real] beyond_g"
  have "f_val ?f 2 2 1 (- 1) = 2" "f_val_c ?f 2 2 1 (- 1) = 0"
    by (simp_all add: eval_defs)
  moreover have "conv2d_result ?f 2 2 ?g 1 3 1 0 = 2" "conv2d_result ?f 2 2 ?g 1 3 0 0 = beyond_f (- 1)"
    by (simp_all add: eval_defs)
  moreover have "parallel_conv2d_result ?f 2 2 ?g 1 3 1 0 = 2"
    by (simp add: eval_defs)
  moreover have "parallel_conv2d_c_result ?f 2 2 ?g 1 3 1 0 = 0"
    by (simp add: eval_defs)
  ultimately show ?thesis
    by (simp add: conv2d_cell parallel_conv2d_cell parallel_conv2d_c_cell)
qed

text \<open>
  Claim C3 says that reading a zero-padded copy and checking the bounds of each
  tap give the same value in every cell. On the input above, cell \<open>(1, 0)\<close> is
  \<open>0\<close> in the padded routine of conv2d.c and \<open>2\<close> in the bounds-checking routine
  of the unnamed source file.
\<close>

theorem padded_and_checked_differ:
  "snd (conv2d_c (zero_padded (buffer [1, 2, 3, 4 :: real] beyond_f) 2 2 0 1) 2 2
          (buffer [1, 0, 0] beyond_g) 1 3 1 0 out) (IDX 1 0 2) = 0
   \<and> snd (conv2d (buffer [1, 2, 3, 4 :: real] beyond_f) 2 2 (buffer [1, 0, 0] beyond_g) 1 3 out)
        (IDX 1 0 2) = 2"
proof -
  let ?f = "buffer [1, 2, 3, 4 :: real] beyond_f" and ?g = "buffer [1, 0, 0 :: real] beyond_g"
  have "conv2d_result ?f 2 2 ?g 1 3 1 0 = 2"
    by (simp add: eval_defs)
  then have "snd (conv2d ?f 2 2 ?g 1 3 out) (IDX 1 0 2) = 2"
    by (simp add: conv2d_cell)
  moreover have "snd (conv2d_c (zero_padded ?f 2 2 0 1) 2 2 ?g 1 3 1 0 out) (IDX 1 0 2) = 0"
    by (simp add: conv2d_c_def eval_defs)
  ultimately show ?thesis by simp
qed

text \<open>
  Claim C5 is the boundary example: the \<open>3 \<times> 3\<close> feature map of ones and the
  \<open>3 \<times> 3\<close> kernel of ninths, computed in exact arithmetic. The centre is \<open>1\<close> and
  the edge midpoint \<open>(0, 1)\<close> is \<open>2 / 3\<close>, but the corner \<open>(2, 0)\<close> is \<open>2 / 3\<close> as
  well, not \<open>0.444\<close>: its two taps in column -1 read the last samples of rows 0
  and 1. The corner \<open>(0, 0)\<close> takes in the sample before the buffer too.
\<close>

theorem boundary_example_corner:
  "snd (conv2d (buffer (replicate 9 (1::real)) beyond_f) 3 3
          (buffer (replicate 9 (1 / 9)) beyond_g) 3 3 out) (IDX 1 1 3) = 1
   \<and> snd (conv2d (buffer (replicate 9 (1::real)) beyond_f) 3 3
          (buffer (replicate 9 (1 / 9)) beyond_g) 3 3 out) (IDX 0 1 3) = 2 / 3
   \<and> snd (conv2d (buffer (replicate 9 (1::real)) beyond_f) 3 3
          (buffer (replicate 9 (1 / 9)) beyond_g) 3 3 out) (IDX 2 0 3) = 2 / 3
   \<and> arr (snd (parallel_conv2d (buffer (replicate 9 (1::real)) beyond_f) 3 3
          (buffer (replicate 9 (1 / 9)) beyond_g) 3 3 padded_output)) (IDX 2 0 3) = 2 / 3
   \<and> \<bar>2 / 3 - 0.444 :: real\<bar> > 0.001
   \<and> snd (conv2d (buffer (replicate 9 (1::real)) beyond_f) 3 3
          (buffer (replicate 9 (1 / 9)) beyond_g) 3 3 out) (IDX 0 0 3)
       = 5 / 9 + beyond_f (- 1) / 9"
proof -
  let ?f = "buffer (replicate 9 (1::real)) beyond_f"
  let ?g = "buffer (replicate 9 (1 / 9 :: real)) beyond_g"
  have "conv2d_result ?f 3 3 ?g 3 3 1 1 = 1" "conv2d_result ?f 3 3 ?g 3 3 0 1 = 2 / 3"
    "conv2d_result ?f 3 3 ?g 3 3 2 0 = 2 / 3"
    "conv2d_result ?f 3 3 ?g 3 3 0 0 = 5 / 9 + beyond_f (- 1) / 9"
    by (simp_all add: eval_defs)
  moreover have "parallel_conv2d_result ?f 3 3 ?g 3 3 2 0 = 2 / 3"
    by (simp add: eval_defs)
  ultimately show ?thesis
    by (simp add: conv2d_cell parallel_conv2d_cell)
qed

end
